theory Spec2Isabelle
  imports Complex_Main "HOL-Library.Log_Nat"
begin

section \<open>JavaScript numbers\<close>

text \<open>
  A JavaScript number is an IEEE 754 binary64 value: a finite double, given by its exact
  value, one of the two infinities, or NaN. Every arithmetic operation computes the exact
  result and rounds it to the nearest double, ties to the even mantissa. Negative zero is
  identified with zero; the two differ only as divisors and under \<^verbatim>\<open>Object.is\<close>, and in this
  program no zero reaches either place (the divisors are the speed, which the slider keeps
  in 0.1 .. 3, the natural size, which is tested first, and constants).
\<close>

datatype jsnum = Fin real | PosInf | NegInf | NaN

text \<open>The nearest integer, ties to even.\<close>

definition round_even :: "real \<Rightarrow> int" where
  "round_even x =
     (let f = \<lfloor>x\<rfloor>; d = x - of_int f in
      if d < 1 / 2 then f else if d > 1 / 2 then f + 1 else if even f then f else f + 1)"

definition pow2 :: "int \<Rightarrow> real" where
  "pow2 q = (if 0 \<le> q then 2 ^ nat q else 1 / 2 ^ nat (- q))"

text \<open>The binary exponent of \<open>x \<noteq> 0\<close>: the \<open>e\<close> with \<open>2\<^sup>e \<le> |x| < 2\<^sup>e\<^sup>+\<^sup>1\<close>.\<close>

definition expo :: "real \<Rightarrow> int" where
  "expo x =
     (if 1 \<le> \<bar>x\<bar> then bitlen \<lfloor>\<bar>x\<bar>\<rfloor> - 1
      else - bitlen (\<lceil>1 / \<bar>x\<bar>\<rceil> - 1))"

text \<open>
  The exponent of the last mantissa bit: 52 below the binary exponent, and never below
  \<open>-1074\<close> (subnormal numbers).
\<close>

definition quantum :: "real \<Rightarrow> int" where
  "quantum x = max (expo x - 52) (- 1074)"

definition nearest :: "real \<Rightarrow> real" where
  "nearest x =
     (if x = 0 then 0 else of_int (round_even (x / pow2 (quantum x))) * pow2 (quantum x))"

text \<open>Rounding of an exact result; beyond the largest double it overflows to an infinity.\<close>

definition rnd :: "real \<Rightarrow> jsnum" where
  "rnd x =
     (let r = nearest x in
      if r \<ge> pow2 1024 then PosInf else if r \<le> - pow2 1024 then NegInf else Fin r)"

text \<open>The sign of a number that is not NaN, as \<open>1\<close>, \<open>0\<close> or \<open>-1\<close>.\<close>

fun js_sign :: "jsnum \<Rightarrow> int" where
  "js_sign (Fin a) = (if a > 0 then 1 else if a < 0 then - 1 else 0)"
| "js_sign PosInf = 1"
| "js_sign NegInf = - 1"
| "js_sign NaN = 0"

definition inf_of_sign :: "int \<Rightarrow> jsnum" where
  "inf_of_sign s = (if s > 0 then PosInf else if s < 0 then NegInf else NaN)"

text \<open>\<^verbatim>\<open>a - b\<close>\<close>

fun js_sub :: "jsnum \<Rightarrow> jsnum \<Rightarrow> jsnum" where
  "js_sub NaN b = NaN"
| "js_sub a NaN = NaN"
| "js_sub (Fin a) (Fin b) = rnd (a - b)"
| "js_sub (Fin a) PosInf = NegInf"
| "js_sub (Fin a) NegInf = PosInf"
| "js_sub PosInf PosInf = NaN"
| "js_sub PosInf b = PosInf"
| "js_sub NegInf NegInf = NaN"
| "js_sub NegInf b = NegInf"

text \<open>\<^verbatim>\<open>a * b\<close>\<close>

fun js_mul :: "jsnum \<Rightarrow> jsnum \<Rightarrow> jsnum" where
  "js_mul NaN b = NaN"
| "js_mul a NaN = NaN"
| "js_mul (Fin a) (Fin b) = rnd (a * b)"
| "js_mul a b = inf_of_sign (js_sign a * js_sign b)"

text \<open>\<^verbatim>\<open>a / b\<close>\<close>

fun js_div :: "jsnum \<Rightarrow> jsnum \<Rightarrow> jsnum" where
  "js_div NaN b = NaN"
| "js_div a NaN = NaN"
| "js_div (Fin a) (Fin b) = (if b = 0 then inf_of_sign (js_sign (Fin a)) else rnd (a / b))"
| "js_div (Fin a) b = Fin 0"
| "js_div a (Fin b) = inf_of_sign (js_sign a * (if b < 0 then - 1 else 1))"
| "js_div a b = NaN"

text \<open>\<^verbatim>\<open>Math.abs(a)\<close>\<close>

fun js_abs :: "jsnum \<Rightarrow> jsnum" where
  "js_abs (Fin a) = Fin \<bar>a\<bar>"
| "js_abs PosInf = PosInf"
| "js_abs NegInf = PosInf"
| "js_abs NaN = NaN"

text \<open>\<^verbatim>\<open>a > b\<close>\<close>

fun js_gt :: "jsnum \<Rightarrow> jsnum \<Rightarrow> bool" where
  "js_gt NaN b = False"
| "js_gt a NaN = False"
| "js_gt (Fin a) (Fin b) = (a > b)"
| "js_gt PosInf b = (b \<noteq> PosInf)"
| "js_gt a NegInf = (a \<noteq> NegInf)"
| "js_gt a b = False"

section \<open>Sample store\<close>

text \<open>
  One row of the recording, as \<^verbatim>\<open>loadData\<close> in \<^verbatim>\<open>AppVideo.jsx\<close> builds it with \<^verbatim>\<open>parseInt\<close>
  and \<^verbatim>\<open>parseFloat\<close>. The frame number is optional: the seek effect tests
  \<^verbatim>\<open>data.frame_number === undefined\<close>. The coordinates \<^verbatim>\<open>x\<close> and \<^verbatim>\<open>y\<close> are the fields \<open>pos_x\<close>
  and \<open>pos_y\<close>.
\<close>

record sample =
  frame_number :: "jsnum option"
  timestamp :: jsnum
  datetime :: string
  video_timestamp :: jsnum
  pos_x :: jsnum
  pos_y :: jsnum

datatype js_error = TypeError

text \<open>
  \<^verbatim>\<open>timelineData[i]\<close>: reading outside the array gives \<^verbatim>\<open>undefined\<close> (here \<open>None\<close>); a
  property read on it raises a TypeError. Indices and lengths are integers far below
  \<open>2\<^sup>5\<^sup>3\<close>, where JavaScript's arithmetic on them is exact.
\<close>

definition at_index :: "sample list \<Rightarrow> int \<Rightarrow> sample option" where
  "at_index timelineData i =
     (if 0 \<le> i \<and> i < int (length timelineData) then Some (timelineData ! nat i) else None)"

text \<open>
  The three-sample recording of the specification's scenario: the texts \<^verbatim>\<open>0.0\<close>, \<^verbatim>\<open>0.1\<close> and
  \<^verbatim>\<open>0.3\<close> as \<^verbatim>\<open>parseFloat\<close> reads them.
\<close>

definition demo_samples :: "sample list" where
  "demo_samples =
     [\<lparr>frame_number = Some (Fin 0), timestamp = Fin 0, datetime = [],
       video_timestamp = Fin 0, pos_x = Fin 0, pos_y = Fin 0\<rparr>,
      \<lparr>frame_number = Some (Fin 1), timestamp = rnd (1 / 10), datetime = [],
       video_timestamp = rnd (1 / 10), pos_x = Fin 800, pos_y = Fin 600\<rparr>,
      \<lparr>frame_number = Some (Fin 2), timestamp = rnd (3 / 10), datetime = [],
       video_timestamp = rnd (1 / 5), pos_x = Fin 400, pos_y = Fin 300\<rparr>]"

section \<open>Playback scheduler (TimelineViewerVideo)\<close>

text \<open>
  An armed \<^verbatim>\<open>setTimeout\<close>: its handle, the delay in milliseconds that was passed, and what
  the callback's closure captured (\<^verbatim>\<open>nextIndex\<close>, and the \<^verbatim>\<open>playbackSpeed\<close> that the
  enclosing \<^verbatim>\<open>advanceFrame\<close> closes over).
\<close>

record timeout =
  timer_id :: nat
  timer_delay :: jsnum
  timer_next :: int
  timer_speed :: jsnum

text \<open>
  The component's state variables and refs, together with the browser's table of armed
  timeouts and the next handle \<^verbatim>\<open>setTimeout\<close> will return (handles are positive).
\<close>

record viewer =
  currentIndex :: int
  isPlaying :: bool
  playbackSpeed :: jsnum
  playingIndexRef :: int
  playIntervalRef :: "nat option"
  armed :: "timeout list"
  next_handle :: nat

definition initial_viewer :: viewer where
  "initial_viewer =
     \<lparr>currentIndex = 0, isPlaying = False, playbackSpeed = Fin 1, playingIndexRef = 0,
      playIntervalRef = None, armed = [], next_handle = 1\<rparr>"

text \<open>\<^verbatim>\<open>playIntervalRef.current = setTimeout(callback, adjustedInterval)\<close>\<close>

definition setTimeout_ref :: "jsnum \<Rightarrow> int \<Rightarrow> jsnum \<Rightarrow> viewer \<Rightarrow> viewer" where
  "setTimeout_ref adjustedInterval nextIndex speed v =
     v\<lparr>armed := armed v @
            [\<lparr>timer_id = next_handle v, timer_delay = adjustedInterval,
              timer_next = nextIndex, timer_speed = speed\<rparr>],
       playIntervalRef := Some (next_handle v),
       next_handle := Suc (next_handle v)\<rparr>"

text \<open>
  \<^verbatim>\<open>advanceFrame\<close> of the playback effect; \<open>speed\<close> is the \<^verbatim>\<open>playbackSpeed\<close> of the render
  whose effect created the closure.
\<close>

definition advanceFrame :: "sample list \<Rightarrow> jsnum \<Rightarrow> viewer \<Rightarrow> js_error + viewer" where
  "advanceFrame timelineData speed v =
     (let index = playingIndexRef v in
      if index \<ge> int (length timelineData) - 1 then Inr (v\<lparr>isPlaying := False\<rparr>)
      else
        let nextIndex = index + 1 in
        case (at_index timelineData index, at_index timelineData nextIndex) of
          (Some currentFrame, Some nextFrame) \<Rightarrow>
            let timeDiff = js_mul (js_sub (timestamp nextFrame) (timestamp currentFrame))
                             (Fin 1000);
                adjustedInterval = js_div timeDiff speed
            in Inr (setTimeout_ref adjustedInterval nextIndex speed v)
        | _ \<Rightarrow> Inl TypeError)"

text \<open>
  The statement shared by the effect's cleanup and by its else branch:
  \<^verbatim>\<open>if (playIntervalRef.current) { clearTimeout(playIntervalRef.current);
  playIntervalRef.current = null; }\<close>. A handle \<open>0\<close> would be falsy.
\<close>

definition clearPlayInterval :: "viewer \<Rightarrow> viewer" where
  "clearPlayInterval v =
     (case playIntervalRef v of
        None \<Rightarrow> v
      | Some h \<Rightarrow>
          if h = 0 then v
          else v\<lparr>armed := filter (\<lambda>t. timer_id t \<noteq> h) (armed v), playIntervalRef := None\<rparr>)"

text \<open>
  The playback effect, run when one of its dependencies \<^verbatim>\<open>[isPlaying, playbackSpeed,
  timelineData]\<close> changed. The previous run returned a cleanup function only in its
  \<^verbatim>\<open>isPlaying\<close> branch (\<open>wasPlaying\<close>); React calls it before the new body.
\<close>

definition playbackEffect :: "sample list \<Rightarrow> bool \<Rightarrow> viewer \<Rightarrow> js_error + viewer" where
  "playbackEffect timelineData wasPlaying v =
     (let v1 = (if wasPlaying then clearPlayInterval v else v) in
      if isPlaying v1 then advanceFrame timelineData (playbackSpeed v1) v1
      else Inr (clearPlayInterval v1))"

text \<open>
  The first effect, with dependency \<^verbatim>\<open>[currentIndex]\<close>:
  \<^verbatim>\<open>playingIndexRef.current = currentIndex\<close>. \<open>prev\<close> is the previous render.
\<close>

definition syncPlayingIndex :: "viewer \<Rightarrow> viewer \<Rightarrow> viewer" where
  "syncPlayingIndex prev v =
     (if currentIndex v \<noteq> currentIndex prev then v\<lparr>playingIndexRef := currentIndex v\<rparr> else v)"

text \<open>Whether a dependency of the playback effect differs from the previous render.\<close>

definition playbackDepsChanged :: "viewer \<Rightarrow> viewer \<Rightarrow> bool" where
  "playbackDepsChanged prev v =
     (isPlaying v \<noteq> isPlaying prev \<or> playbackSpeed v \<noteq> playbackSpeed prev)"

text \<open>
  One commit: the effects whose dependencies differ from those of the previous render run
  in the order they are declared.
\<close>

definition runEffects :: "sample list \<Rightarrow> viewer \<Rightarrow> viewer \<Rightarrow> js_error + viewer" where
  "runEffects timelineData prev v =
     (let v1 = syncPlayingIndex prev v in
      if playbackDepsChanged prev v
      then playbackEffect timelineData (isPlaying prev) v1
      else Inr v1)"

text \<open>
  A state update made inside an effect (\<^verbatim>\<open>setIsPlaying(false)\<close> in \<^verbatim>\<open>advanceFrame\<close>) causes
  one more render and commit; after it no effect changes a state variable.
\<close>

definition flush :: "sample list \<Rightarrow> viewer \<Rightarrow> viewer \<Rightarrow> js_error + viewer" where
  "flush timelineData prev v =
     (case runEffects timelineData prev v of
        Inl e \<Rightarrow> Inl e
      | Inr v' \<Rightarrow> runEffects timelineData v v')"

text \<open>The event handlers: the state updates they request.\<close>

definition handleSliderChange :: "int \<Rightarrow> viewer \<Rightarrow> viewer" where
  "handleSliderChange index v = v\<lparr>currentIndex := index, isPlaying := False\<rparr>"

definition handlePlayPause :: "sample list \<Rightarrow> viewer \<Rightarrow> viewer" where
  "handlePlayPause timelineData v =
     (if currentIndex v \<ge> int (length timelineData) - 1
      then v\<lparr>currentIndex := 0, isPlaying := True\<rparr>
      else v\<lparr>isPlaying := \<not> isPlaying v\<rparr>)"

definition handleKeyPress :: "sample list \<Rightarrow> string \<Rightarrow> viewer \<Rightarrow> viewer" where
  "handleKeyPress timelineData key v =
     (if key = '' '' \<or> key = ''Spacebar'' then v\<lparr>isPlaying := \<not> isPlaying v\<rparr>
      else if key = ''ArrowRight''
        then v\<lparr>currentIndex := min (currentIndex v + 1) (int (length timelineData) - 1)\<rparr>
      else if key = ''ArrowLeft'' then v\<lparr>currentIndex := max (currentIndex v - 1) 0\<rparr>
      else v)"

definition setPlaybackSpeed :: "jsnum \<Rightarrow> viewer \<Rightarrow> viewer" where
  "setPlaybackSpeed speed v = v\<lparr>playbackSpeed := speed\<rparr>"

text \<open>
  The callback given to \<^verbatim>\<open>setTimeout\<close>: \<^verbatim>\<open>setCurrentIndex(nextIndex);
  playingIndexRef.current = nextIndex; advanceFrame();\<close>
\<close>

definition timeoutCallback :: "sample list \<Rightarrow> timeout \<Rightarrow> viewer \<Rightarrow> js_error + viewer" where
  "timeoutCallback timelineData t v =
     advanceFrame timelineData (timer_speed t)
       (v\<lparr>currentIndex := timer_next t, playingIndexRef := timer_next t\<rparr>)"

text \<open>
  What can happen to the mounted component: a click on the play button, a key press on the
  window, an input event of the timeline slider (\<^verbatim>\<open>handleSliderInput\<close> parses its value),
  an input event of the speed slider (\<^verbatim>\<open>handleSpeedChange\<close> parses its value), and an armed
  timeout running.
\<close>

datatype event =
  PlayPauseClick | KeyDown string | SliderInput int | SpeedInput jsnum | TimeoutFires nat

definition step :: "sample list \<Rightarrow> event \<Rightarrow> viewer \<Rightarrow> js_error + viewer" where
  "step timelineData e v =
     (case e of
        PlayPauseClick \<Rightarrow> flush timelineData v (handlePlayPause timelineData v)
      | KeyDown key \<Rightarrow> flush timelineData v (handleKeyPress timelineData key v)
      | SliderInput index \<Rightarrow> flush timelineData v (handleSliderChange index v)
      | SpeedInput speed \<Rightarrow> flush timelineData v (setPlaybackSpeed speed v)
      | TimeoutFires h \<Rightarrow>
          (case find (\<lambda>t. timer_id t = h) (armed v) of
             None \<Rightarrow> Inr v
           | Some t \<Rightarrow>
               (case timeoutCallback timelineData t
                       (v\<lparr>armed := filter (\<lambda>u. timer_id u \<noteq> h) (armed v)\<rparr>) of
                  Inl err \<Rightarrow> Inl err
                | Inr v' \<Rightarrow> flush timelineData v v')))"

fun run :: "sample list \<Rightarrow> event list \<Rightarrow> viewer \<Rightarrow> js_error + viewer" where
  "run timelineData [] v = Inr v"
| "run timelineData (e # es) v =
     (case step timelineData e v of
        Inl err \<Rightarrow> Inl err
      | Inr v' \<Rightarrow> run timelineData es v')"

text \<open>
  The events the controls can deliver for a recording of \<open>N\<close> samples: the timeline slider
  is a range input with \<^verbatim>\<open>min="0"\<close>, \<^verbatim>\<open>max={totalFrames - 1}\<close> and \<^verbatim>\<open>step="1"\<close>, the speed
  slider one with \<^verbatim>\<open>min="0.1"\<close> and \<^verbatim>\<open>max="3"\<close>.
\<close>

definition deliverable :: "sample list \<Rightarrow> event \<Rightarrow> bool" where
  "deliverable timelineData e =
     (case e of
        SliderInput index \<Rightarrow> 0 \<le> index \<and> index \<le> int (length timelineData) - 1
      | SpeedInput speed \<Rightarrow> (case speed of Fin s \<Rightarrow> 1 / 10 \<le> s \<and> s \<le> 3 | _ \<Rightarrow> False)
      | _ \<Rightarrow> True)"

text \<open>Every index the state holds is an index of the recording.\<close>

definition indices_valid :: "sample list \<Rightarrow> viewer \<Rightarrow> bool" where
  "indices_valid timelineData v =
     (let n = int (length timelineData) in
      0 \<le> currentIndex v \<and> currentIndex v < n
      \<and> 0 \<le> playingIndexRef v \<and> playingIndexRef v < n
      \<and> list_all (\<lambda>t. 0 \<le> timer_next t \<and> timer_next t < n) (armed v))"

text \<open>
  At most one timeout is armed, and \<^verbatim>\<open>playIntervalRef\<close> holds its handle.
\<close>

definition tidy :: "viewer \<Rightarrow> bool" where
  "tidy v =
     (0 < next_handle v \<and> length (armed v) \<le> 1
      \<and> list_all (\<lambda>t. playIntervalRef v = Some (timer_id t) \<and> 0 < timer_id t) (armed v))"

text \<open>A state between two events: a timeout is armed exactly while playing.\<close>

definition settled :: "viewer \<Rightarrow> bool" where
  "settled v = (tidy v \<and> (isPlaying v \<longleftrightarrow> armed v \<noteq> []))"

text \<open>
  The two numbers \<^verbatim>\<open>advanceFrame\<close> computes at index \<open>i\<close>:
  \<^verbatim>\<open>timeDiff = (nextFrame.timestamp - currentFrame.timestamp) * 1000\<close> and
  \<^verbatim>\<open>adjustedInterval = timeDiff / playbackSpeed\<close>, the delay in milliseconds passed to
  \<^verbatim>\<open>setTimeout\<close>; three rounded operations in all.
\<close>

definition timeDiff :: "sample list \<Rightarrow> int \<Rightarrow> jsnum" where
  "timeDiff timelineData i =
     js_mul (js_sub (timestamp (timelineData ! nat (i + 1))) (timestamp (timelineData ! nat i)))
       (Fin 1000)"

definition adjustedInterval :: "sample list \<Rightarrow> int \<Rightarrow> jsnum \<Rightarrow> jsnum" where
  "adjustedInterval timelineData i speed = js_div (timeDiff timelineData i) speed"

text \<open>
  Every armed timeout advances into an index \<open>j \<ge> 1\<close>, carries the current speed, and was
  given the delay computed for the step from \<open>j - 1\<close> to \<open>j\<close> at that speed.
\<close>

definition on_schedule :: "sample list \<Rightarrow> viewer \<Rightarrow> bool" where
  "on_schedule timelineData v =
     list_all (\<lambda>t. 1 \<le> timer_next t \<and> timer_speed t = playbackSpeed v
                 \<and> timer_delay t = adjustedInterval timelineData (timer_next t - 1) (playbackSpeed v))
       (armed v)"

text \<open>What holds of the scheduler between any two events.\<close>

definition scheduler_inv :: "sample list \<Rightarrow> viewer \<Rightarrow> bool" where
  "scheduler_inv timelineData v =
     (settled v \<and> indices_valid timelineData v \<and> playingIndexRef v = currentIndex v
      \<and> on_schedule timelineData v)"


section \<open>Overlay projector and frame-seek synchronizer (ScreenshotDisplayVideo)\<close>

text \<open>
  The inline styles the component assigns: lengths such as \<^verbatim>\<open>`${v}px`\<close> and \<^verbatim>\<open>"50%"\<close>, and
  the transforms \<^verbatim>\<open>"none"\<close> and \<^verbatim>\<open>translate(a, b)\<close>. A style that was never assigned is
  \<open>None\<close>.
\<close>

datatype css_length = Px jsnum | Percent int

datatype css_transform = TransformNone | Translate css_length css_length

text \<open>
  The media element. Its natural size is an unsigned integer, its displayed size an
  integer, its position a finite double.
\<close>

record video_element =
  videoWidth :: nat
  videoHeight :: nat
  clientWidth :: int
  clientHeight :: int
  currentTime :: real
  readyState :: nat
  video_transform :: "css_transform option"
  video_transition :: "string option"

record cursor_element =
  style_left :: "css_length option"
  style_top :: "css_length option"
  cursor_transform :: "css_transform option"
  cursor_transition :: "string option"

text \<open>The wrapper is read through \<^verbatim>\<open>getBoundingClientRect()\<close> only.\<close>

record wrapper_element =
  rect_width :: real
  rect_height :: real

text \<open>The three refs; \<^verbatim>\<open>ref.current\<close> is \<^verbatim>\<open>null\<close> (\<open>None\<close>) while the element is not mounted.\<close>

record dom_refs =
  cursorRef :: "cursor_element option"
  videoRef :: "video_element option"
  wrapperRef :: "wrapper_element option"

text \<open>A division that also records its divisor, in the order the divisions are evaluated.\<close>

definition logged_div :: "jsnum \<Rightarrow> jsnum \<Rightarrow> jsnum list \<Rightarrow> jsnum \<times> jsnum list" where
  "logged_div a b divisors = (js_div a b, divisors @ [b])"

text \<open>
  \<^verbatim>\<open>updateDisplay\<close>: the refs after the call, and the divisors of the divisions it evaluated.
\<close>

definition updateDisplay :: "sample \<Rightarrow> bool \<Rightarrow> dom_refs \<Rightarrow> dom_refs \<times> jsnum list" where
  "updateDisplay data isFpsMode els =
     (case (cursorRef els, videoRef els, wrapperRef els) of
        (Some cursor, Some video, Some wrapper) \<Rightarrow>
          let naturalWidth = videoWidth video;
              naturalHeight = videoHeight video;
              displayedWidth = clientWidth video;
              displayedHeight = clientHeight video
          in
          if naturalWidth = 0 \<or> naturalHeight = 0 then (els, [])
          else
            let (scaleX, d1) =
                  logged_div (Fin (real_of_int displayedWidth)) (Fin (real naturalWidth)) [];
                (scaleY, d2) =
                  logged_div (Fin (real_of_int displayedHeight)) (Fin (real naturalHeight)) d1;
                (halfX, d3) = logged_div (pos_x data) (Fin 2) d2;
                cursorX = js_mul halfX scaleX;
                (halfY, d4) = logged_div (pos_y data) (Fin 2) d3;
                cursorY = js_mul halfY scaleY
            in
            if isFpsMode then
              let (centerX, d5) = logged_div (Fin (rect_width wrapper)) (Fin 2) d4;
                  (centerY, d6) = logged_div (Fin (rect_height wrapper)) (Fin 2) d5;
                  offsetX = js_sub centerX cursorX;
                  offsetY = js_sub centerY cursorY
              in
              (els
                \<lparr>videoRef := Some (video
                   \<lparr>video_transform := Some (Translate (Px offsetX) (Px offsetY)),
                    video_transition :=
                      Some ''transform 0.3s cubic-bezier(0.25, 0.46, 0.45, 0.94)''\<rparr>),
                 cursorRef := Some (cursor
                   \<lparr>style_left := Some (Percent 50),
                    style_top := Some (Percent 50),
                    cursor_transform := Some (Translate (Percent (- 50)) (Percent (- 50))),
                    cursor_transition :=
                      Some ''all 0.3s cubic-bezier(0.25, 0.46, 0.45, 0.94)''\<rparr>)\<rparr>, d6)
            else
              (els
                \<lparr>videoRef := Some (video
                   \<lparr>video_transform := Some TransformNone,
                    video_transition := Some ''none''\<rparr>),
                 cursorRef := Some (cursor
                   \<lparr>style_left := Some (Px (js_sub cursorX (Fin 10))),
                    style_top := Some (Px (js_sub cursorY (Fin 10))),
                    cursor_transform := Some TransformNone,
                    cursor_transition :=
                      Some (''left 0.25s cubic-bezier(0.25, 0.46, 0.45, 0.94), ''
                            @ ''top 0.25s cubic-bezier(0.25, 0.46, 0.45, 0.94)'')\<rparr>)\<rparr>, d4)
      | _ \<Rightarrow> (els, []))"

text \<open>The cursor point of a sample on a media of the given natural and displayed sizes.\<close>

definition cursorPoint :: "jsnum \<Rightarrow> int \<Rightarrow> nat \<Rightarrow> jsnum" where
  "cursorPoint coordinate displayed natural =
     js_mul (js_div coordinate (Fin 2)) (js_div (Fin (real_of_int displayed)) (Fin (real natural)))"

text \<open>The literal \<open>10\<close> that the direct-mode branch subtracts from both coordinates.\<close>

definition markerHalfSize :: real where
  "markerHalfSize = 10"

text \<open>
  Modelled from the spec: the style sheet that sizes \<^verbatim>\<open>.cursor-overlay\<close> is not among the
  sources; the marker is taken as a square of side \<open>2 * markerHalfSize\<close>, so that its centre
  lies \<open>markerHalfSize\<close> right of and below its top-left corner.
\<close>

definition marker_center :: "cursor_element \<Rightarrow> (real \<times> real) option" where
  "marker_center cursor =
     (case (style_left cursor, style_top cursor) of
        (Some (Px (Fin l)), Some (Px (Fin t))) \<Rightarrow> Some (l + markerHalfSize, t + markerHalfSize)
      | _ \<Rightarrow> None)"

text \<open>
  What the component asks of its collaborators, in order: a seek of the media
  (\<^verbatim>\<open>video.currentTime = targetTime\<close>) and a recomputation of the geometry from a sample.
\<close>

datatype call = SeekTo real | UpdateDisplay sample

text \<open>
  Props, state variables and refs of the mounted component, and the calls made so far.
  Assigning \<^verbatim>\<open>currentTime\<close> moves the media's position to the target at once; the position
  changes in no other way (the video is never played).
\<close>

record display =
  data :: sample
  isFpsMode :: bool
  isSeeking :: bool
  pendingData :: "sample option"
  refs :: dom_refs
  calls :: "call list"

text \<open>A call of the \<^verbatim>\<open>updateDisplay\<close> closure of the current render.\<close>

definition callUpdateDisplay :: "display \<Rightarrow> display" where
  "callUpdateDisplay c =
     c\<lparr>refs := fst (updateDisplay (data c) (isFpsMode c) (refs c)),
       calls := calls c @ [UpdateDisplay (data c)]\<rparr>"

text \<open>The tolerance: the literal \<^verbatim>\<open>0.05\<close>.\<close>

definition tolerance :: jsnum where
  "tolerance = rnd (5 / 100)"

text \<open>\<^verbatim>\<open>data.frame_number / videoFPS\<close> with \<^verbatim>\<open>videoFPS = 10\<close>\<close>

definition targetTime :: "jsnum \<Rightarrow> jsnum" where
  "targetTime frame = js_div frame (Fin 10)"

text \<open>\<^verbatim>\<open>Math.abs(video.currentTime - targetTime) > 0.05\<close>\<close>

definition beyond_tolerance :: "real \<Rightarrow> jsnum \<Rightarrow> bool" where
  "beyond_tolerance position target = js_gt (js_abs (js_sub (Fin position) target)) tolerance"

text \<open>
  The seek effect, with dependencies \<^verbatim>\<open>[data, videoRef, updateDisplay]\<close>. The attribute
  \<^verbatim>\<open>currentTime\<close> accepts finite numbers only: assigning another raises a TypeError.
\<close>

definition seekEffect :: "display \<Rightarrow> js_error + display" where
  "seekEffect c =
     (case videoRef (refs c) of
        None \<Rightarrow> Inr c
      | Some video \<Rightarrow>
          (case frame_number (data c) of
             None \<Rightarrow> Inr c
           | Some frame \<Rightarrow>
               if beyond_tolerance (currentTime video) (targetTime frame)
               then
                 (case targetTime frame of
                    Fin t \<Rightarrow>
                      Inr (c\<lparr>isSeeking := True, pendingData := Some (data c),
                             refs := (refs c)\<lparr>videoRef := Some (video\<lparr>currentTime := t\<rparr>)\<rparr>,
                             calls := calls c @ [SeekTo t]\<rparr>)
                  | _ \<Rightarrow> Inl TypeError)
               else Inr (callUpdateDisplay c)))"

text \<open>
  The effect with dependencies \<^verbatim>\<open>[data, isFpsMode, updateDisplay, videoRef, isSeeking]\<close>;
  \<open>seeking\<close> is the value of \<^verbatim>\<open>isSeeking\<close> in the render the effect belongs to.
\<close>

definition displayEffect :: "bool \<Rightarrow> display \<Rightarrow> display" where
  "displayEffect seeking c =
     (case videoRef (refs c) of
        None \<Rightarrow> c
      | Some video \<Rightarrow>
          if \<not> seeking \<and> readyState video \<ge> 2 then callUpdateDisplay c else c)"

text \<open>
  The render that follows the state updates of a commit or handler: of the effects only
  the second depends on a state variable (\<^verbatim>\<open>isSeeking\<close>).
\<close>

definition settle :: "bool \<Rightarrow> display \<Rightarrow> display" where
  "settle seeking c = (if isSeeking c \<noteq> seeking then displayEffect (isSeeking c) c else c)"

text \<open>A render with a changed \<^verbatim>\<open>data\<close> or \<^verbatim>\<open>isFpsMode\<close>: both effects run, in order.\<close>

definition rerender :: "bool \<Rightarrow> display \<Rightarrow> js_error + display" where
  "rerender seeking c =
     (case seekEffect c of
        Inl err \<Rightarrow> Inl err
      | Inr c1 \<Rightarrow> Inr (settle seeking (displayEffect seeking c1)))"

definition handleSeeked :: "display \<Rightarrow> display" where
  "handleSeeked c =
     (case pendingData c of
        None \<Rightarrow> c\<lparr>isSeeking := False\<rparr>
      | Some p \<Rightarrow> callUpdateDisplay (c\<lparr>isSeeking := False, pendingData := None\<rparr>))"

definition handleSeeking :: "display \<Rightarrow> display" where
  "handleSeeking c = c\<lparr>isSeeking := True\<rparr>"

text \<open>
  \<^verbatim>\<open>handleVideoLoad\<close>; its second statement, \<^verbatim>\<open>onVideoLoad()\<close>, sets a state variable of the
  parent that this component does not receive.
\<close>

definition handleVideoLoad :: "display \<Rightarrow> display" where
  "handleVideoLoad c = callUpdateDisplay c"

text \<open>The first render and commit.\<close>

definition mount :: "sample \<Rightarrow> bool \<Rightarrow> dom_refs \<Rightarrow> js_error + display" where
  "mount d fps els =
     rerender False
       \<lparr>data = d, isFpsMode = fps, isSeeking = False, pendingData = None, refs = els,
        calls = []\<rparr>"

text \<open>
  What can happen to the mounted component: the parent passes another sample or toggles the
  mode, the media signals \<^verbatim>\<open>seeking\<close>, \<^verbatim>\<open>seeked\<close> or \<^verbatim>\<open>loadedmetadata\<close>, the window is
  resized. The browser changes the sizes and the ready state of the media by itself
  (\<open>MediaChanged\<close>: natural size, displayed size, ready state); no handler runs then.
\<close>

datatype display_event =
  DataChanged sample | FpsModeToggled | MediaSeeking | MediaSeeked | MediaLoadedMetadata
  | WindowResized | MediaChanged nat nat int int nat

definition display_step :: "display_event \<Rightarrow> display \<Rightarrow> js_error + display" where
  "display_step e c =
     (case e of
        DataChanged d \<Rightarrow> rerender (isSeeking c) (c\<lparr>data := d\<rparr>)
      | FpsModeToggled \<Rightarrow> rerender (isSeeking c) (c\<lparr>isFpsMode := \<not> isFpsMode c\<rparr>)
      | MediaSeeking \<Rightarrow> Inr (settle (isSeeking c) (handleSeeking c))
      | MediaSeeked \<Rightarrow> Inr (settle (isSeeking c) (handleSeeked c))
      | MediaLoadedMetadata \<Rightarrow> Inr (handleVideoLoad c)
      | WindowResized \<Rightarrow> Inr (callUpdateDisplay c)
      | MediaChanged nw nh dw dh rs \<Rightarrow>
          (case videoRef (refs c) of
             None \<Rightarrow> Inr c
           | Some video \<Rightarrow>
               Inr (c\<lparr>refs := (refs c)\<lparr>videoRef := Some (video
                      \<lparr>videoWidth := nw, videoHeight := nh, clientWidth := dw,
                       clientHeight := dh, readyState := rs\<rparr>)\<rparr>\<rparr>)))"

fun display_run :: "display_event list \<Rightarrow> display \<Rightarrow> js_error + display" where
  "display_run [] c = Inr c"
| "display_run (e # es) c =
     (case display_step e c of
        Inl err \<Rightarrow> Inl err
      | Inr c1 \<Rightarrow> display_run es c1)"

text \<open>The calls an event added to the log.\<close>

definition new_calls :: "display \<Rightarrow> display \<Rightarrow> call list" where
  "new_calls c c' = drop (length (calls c)) (calls c')"

text \<open>The position the media was last sent to, if the media is mounted.\<close>

definition media_position :: "display \<Rightarrow> real option" where
  "media_position c = map_option currentTime (videoRef (refs c))"

text \<open>
  A sample is aligned with a media position when the effect's own test finds its frame's
  time within the tolerance of that position.
\<close>

definition aligned :: "sample \<Rightarrow> real \<Rightarrow> bool" where
  "aligned s position =
     (case frame_number s of
        None \<Rightarrow> False
      | Some frame \<Rightarrow> \<not> beyond_tolerance position (targetTime frame))"

text \<open>The media is mounted, and a pending sample is the one whose frame time it was sent to.\<close>

definition pending_is_target :: "display \<Rightarrow> bool" where
  "pending_is_target c =
     (case media_position c of
        None \<Rightarrow> False
      | Some position \<Rightarrow>
          (case pendingData c of
             None \<Rightarrow> True
           | Some p \<Rightarrow>
               (case frame_number p of
                  None \<Rightarrow> False
                | Some frame \<Rightarrow> targetTime frame = Fin position)))"

text \<open>The synchronizer's invariant: moreover the current sample is aligned with the media.\<close>

definition synchronised :: "display \<Rightarrow> bool" where
  "synchronised c =
     (pending_is_target c
      \<and> (case media_position c of None \<Rightarrow> False | Some position \<Rightarrow> aligned (data c) position))"

text \<open>
  From \<open>c\<close> to \<open>c'\<close> nothing happened but recomputations of the geometry from the current
  sample.
\<close>

definition recomputes :: "display \<Rightarrow> display \<Rightarrow> bool" where
  "recomputes c c' =
     (data c' = data c \<and> isFpsMode c' = isFpsMode c \<and> isSeeking c' = isSeeking c
      \<and> pendingData c' = pendingData c \<and> media_position c' = media_position c
      \<and> length (calls c) \<le> length (calls c')
      \<and> take (length (calls c)) (calls c') = calls c
      \<and> list_all (\<lambda>x. x = UpdateDisplay (data c)) (new_calls c c'))"

text \<open>
  The parent passes rows of the frame-indexed schema: their frame number is defined, and
  its frame time is a finite number.
\<close>

definition frame_indexed :: "sample \<Rightarrow> bool" where
  "frame_indexed d =
     (case frame_number d of
        None \<Rightarrow> False
      | Some frame \<Rightarrow> (case targetTime frame of Fin t \<Rightarrow> True | _ \<Rightarrow> False))"

definition deliverable_display :: "display_event \<Rightarrow> bool" where
  "deliverable_display e = (case e of DataChanged d \<Rightarrow> frame_indexed d | _ \<Rightarrow> True)"

text \<open>Mounted refs over a media of the given sizes, for the examples.\<close>

definition demo_refs :: "nat \<Rightarrow> nat \<Rightarrow> int \<Rightarrow> int \<Rightarrow> real \<Rightarrow> dom_refs" where
  "demo_refs nw nh dw dh position =
     \<lparr>cursorRef = Some \<lparr>style_left = None, style_top = None, cursor_transform = None,
                        cursor_transition = None\<rparr>,
      videoRef = Some \<lparr>videoWidth = nw, videoHeight = nh, clientWidth = dw, clientHeight = dh,
                       currentTime = position, readyState = 4, video_transform = None,
                       video_transition = None\<rparr>,
      wrapperRef = Some \<lparr>rect_width = 800, rect_height = 600\<rparr>\<rparr>"

section \<open>Rounding: exponents and halving\<close>

lemma pow2_powr: "pow2 q = 2 powr (real_of_int q)"
proof (cases "0 \<le> q")
  case True
  then have "2 powr (real_of_int q) = 2 powr (real (nat q))" by simp
  also have "\<dots> = 2 ^ nat q" by (rule powr_realpow) simp
  finally show ?thesis using True by (simp add: pow2_def)
next
  case False
  then have "2 powr (real_of_int q) = 2 powr (- real (nat (- q)))" by simp
  also have "\<dots> = 1 / 2 powr (real (nat (- q)))" by (simp add: powr_minus_divide)
  also have "2 powr (real (nat (- q))) = 2 ^ nat (- q)" by (rule powr_realpow) simp
  finally show ?thesis using False by (simp add: pow2_def)
qed

lemma pow2_pos: "0 < pow2 q"
  by (simp add: pow2_powr)










lemma rnd_zero: "rnd 0 = Fin 0"
  using pow2_pos [of 1024] by (simp add: rnd_def nearest_def)


section \<open>Rounding: values\<close>

lemmas double_eval = rnd_def nearest_def quantum_def expo_def pow2_def round_even_def Let_def
  compute_bitlen

lemma rnd_tenth: "rnd (1 / 10) = Fin (3602879701896397 / 36028797018963968)"
  by (simp add: double_eval)

lemma rnd_three_tenths: "rnd (3 / 10) = Fin (5404319552844595 / 18014398509481984)"
  by (simp add: double_eval)

lemma rnd_fifth: "rnd (1 / 5) = Fin (3602879701896397 / 18014398509481984)"
  by (simp add: double_eval)

lemma tolerance_value: "tolerance = Fin (3602879701896397 / 72057594037927936)"
  by (simp add: tolerance_def double_eval)

lemma demo_samples_value:
  "demo_samples =
     [\<lparr>frame_number = Some (Fin 0), timestamp = Fin 0, datetime = [],
       video_timestamp = Fin 0, pos_x = Fin 0, pos_y = Fin 0\<rparr>,
      \<lparr>frame_number = Some (Fin 1), timestamp = Fin (3602879701896397 / 36028797018963968),
       datetime = [], video_timestamp = Fin (3602879701896397 / 36028797018963968),
       pos_x = Fin 800, pos_y = Fin 600\<rparr>,
      \<lparr>frame_number = Some (Fin 2), timestamp = Fin (5404319552844595 / 18014398509481984),
       datetime = [], video_timestamp = Fin (3602879701896397 / 18014398509481984),
       pos_x = Fin 400, pos_y = Fin 300\<rparr>]"
  by (simp only: demo_samples_def rnd_tenth rnd_three_tenths rnd_fifth)




section \<open>Scheduler: basic facts\<close>

lemma at_index_Some:
  "0 \<le> i \<Longrightarrow> i < int (length td) \<Longrightarrow> at_index td i = Some (td ! nat i)"
  by (simp add: at_index_def)

lemma advanceFrame_schedules:
  assumes "0 \<le> playingIndexRef v" and "playingIndexRef v < int (length td) - 1"
  shows "advanceFrame td s v
           = Inr (setTimeout_ref (adjustedInterval td (playingIndexRef v) s)
                    (playingIndexRef v + 1) s v)"
proof -
  from assms have "at_index td (playingIndexRef v) = Some (td ! nat (playingIndexRef v))"
    and "at_index td (playingIndexRef v + 1) = Some (td ! nat (playingIndexRef v + 1))"
    by (simp_all add: at_index_Some)
  with assms(2) show ?thesis
    by (simp add: advanceFrame_def Let_def adjustedInterval_def timeDiff_def)
qed

lemma advanceFrame_stops:
  "playingIndexRef v \<ge> int (length td) - 1 \<Longrightarrow> advanceFrame td s v = Inr (v\<lparr>isPlaying := False\<rparr>)"
  by (simp add: advanceFrame_def)


lemma clearPlayInterval_keeps:
  "currentIndex (clearPlayInterval v) = currentIndex v"
  "isPlaying (clearPlayInterval v) = isPlaying v"
  "playbackSpeed (clearPlayInterval v) = playbackSpeed v"
  "playingIndexRef (clearPlayInterval v) = playingIndexRef v"
  "next_handle (clearPlayInterval v) = next_handle v"
  by (simp_all add: clearPlayInterval_def split: option.splits)

lemma indices_valid_clear:
  "indices_valid td v \<Longrightarrow> indices_valid td (clearPlayInterval v)"
  by (auto simp: indices_valid_def clearPlayInterval_def Let_def list_all_iff split: option.splits)

lemma syncPlayingIndex_keeps:
  "currentIndex (syncPlayingIndex prev v) = currentIndex v"
  "isPlaying (syncPlayingIndex prev v) = isPlaying v"
  "playbackSpeed (syncPlayingIndex prev v) = playbackSpeed v"
  "armed (syncPlayingIndex prev v) = armed v"
  "playIntervalRef (syncPlayingIndex prev v) = playIntervalRef v"
  "next_handle (syncPlayingIndex prev v) = next_handle v"
  by (simp_all add: syncPlayingIndex_def)

lemma syncPlayingIndex_same:
  "currentIndex v = currentIndex prev \<Longrightarrow> syncPlayingIndex prev v = v"
  by (simp add: syncPlayingIndex_def)

lemma syncPlayingIndex_synced:
  "playingIndexRef v = currentIndex prev \<Longrightarrow>
     playingIndexRef (syncPlayingIndex prev v) = currentIndex v"
  by (simp add: syncPlayingIndex_def)

lemma runEffects_unchanged:
  "\<not> playbackDepsChanged prev v \<Longrightarrow> runEffects td prev v = Inr (syncPlayingIndex prev v)"
  by (simp add: runEffects_def)

lemma runEffects_changed:
  "playbackDepsChanged prev v \<Longrightarrow>
     runEffects td prev v = playbackEffect td (isPlaying prev) (syncPlayingIndex prev v)"
  by (simp add: runEffects_def)

lemma runEffects_same: "runEffects td v v = Inr v"
  by (simp add: runEffects_def playbackDepsChanged_def syncPlayingIndex_def)

lemma flush_same: "flush td v v = Inr v"
  by (simp add: flush_def runEffects_same)

lemma flush_one_pass:
  assumes "runEffects td prev v = Inr v1" and "isPlaying v1 = isPlaying v"
    and "currentIndex v1 = currentIndex v" and "playbackSpeed v1 = playbackSpeed v"
  shows "flush td prev v = Inr v1"
  using assms
  by (simp add: flush_def runEffects_unchanged playbackDepsChanged_def syncPlayingIndex_same)

section \<open>Indices stay valid\<close>

lemma advanceFrame_valid:
  assumes "indices_valid td v"
  shows "\<exists>v'. advanceFrame td s v = Inr v' \<and> indices_valid td v'
           \<and> currentIndex v' = currentIndex v \<and> playbackSpeed v' = playbackSpeed v
           \<and> playingIndexRef v' = playingIndexRef v
           \<and> isPlaying v' = (isPlaying v \<and> playingIndexRef v < int (length td) - 1)"
proof (cases "playingIndexRef v \<ge> int (length td) - 1")
  case True
  with assms show ?thesis
    by (simp add: advanceFrame_stops indices_valid_def Let_def)
next
  case False
  with assms have "0 \<le> playingIndexRef v" "playingIndexRef v < int (length td) - 1"
    by (simp_all add: indices_valid_def Let_def)
  then have "advanceFrame td s v
               = Inr (setTimeout_ref (adjustedInterval td (playingIndexRef v) s)
                        (playingIndexRef v + 1) s v)"
    by (rule advanceFrame_schedules)
  with assms False show ?thesis
    by (simp add: indices_valid_def Let_def setTimeout_ref_def)
qed

lemma playbackEffect_valid:
  assumes "indices_valid td v"
  shows "\<exists>v'. playbackEffect td w v = Inr v' \<and> indices_valid td v'
           \<and> currentIndex v' = currentIndex v \<and> playbackSpeed v' = playbackSpeed v
           \<and> playingIndexRef v' = playingIndexRef v
           \<and> isPlaying v' = (isPlaying v \<and> playingIndexRef v < int (length td) - 1)"
proof -
  let ?v1 = "if w then clearPlayInterval v else v"
  have v1: "indices_valid td ?v1" "currentIndex ?v1 = currentIndex v"
    "playbackSpeed ?v1 = playbackSpeed v" "playingIndexRef ?v1 = playingIndexRef v"
    "isPlaying ?v1 = isPlaying v"
    using assms by (simp_all add: indices_valid_clear clearPlayInterval_keeps)
  show ?thesis
  proof (cases "isPlaying v")
    case True
    from advanceFrame_valid [OF v1(1), of "playbackSpeed ?v1"] obtain v' where
      "advanceFrame td (playbackSpeed ?v1) ?v1 = Inr v'" "indices_valid td v'"
      "currentIndex v' = currentIndex ?v1" "playbackSpeed v' = playbackSpeed ?v1"
      "playingIndexRef v' = playingIndexRef ?v1"
      "isPlaying v' = (isPlaying ?v1 \<and> playingIndexRef ?v1 < int (length td) - 1)"
      by blast
    with True v1(2-5) show ?thesis
      unfolding playbackEffect_def Let_def by simp
  next
    case False
    with v1 show ?thesis
      unfolding playbackEffect_def Let_def
      by (simp add: indices_valid_clear clearPlayInterval_keeps)
  qed
qed

lemma syncPlayingIndex_valid:
  "indices_valid td v \<Longrightarrow> indices_valid td (syncPlayingIndex prev v)"
  by (simp add: indices_valid_def Let_def syncPlayingIndex_def)

lemma runEffects_valid:
  assumes "indices_valid td v"
  shows "\<exists>v'. runEffects td prev v = Inr v' \<and> indices_valid td v'
           \<and> currentIndex v' = currentIndex v \<and> playbackSpeed v' = playbackSpeed v
           \<and> playingIndexRef v' = playingIndexRef (syncPlayingIndex prev v)
           \<and> isPlaying v' = (isPlaying v \<and> (playbackDepsChanged prev v \<longrightarrow>
                 playingIndexRef (syncPlayingIndex prev v) < int (length td) - 1))"
proof (cases "playbackDepsChanged prev v")
  case True
  from playbackEffect_valid [OF syncPlayingIndex_valid [OF assms], of "isPlaying prev" prev]
  show ?thesis
    unfolding runEffects_changed [OF True] using True
    by (simp add: syncPlayingIndex_keeps)
next
  case False
  with assms show ?thesis
    by (simp add: runEffects_unchanged syncPlayingIndex_valid syncPlayingIndex_keeps)
qed

lemma flush_valid:
  assumes "indices_valid td v"
  shows "\<exists>v'. flush td prev v = Inr v' \<and> indices_valid td v'
           \<and> currentIndex v' = currentIndex v \<and> playbackSpeed v' = playbackSpeed v
           \<and> playingIndexRef v' = playingIndexRef (syncPlayingIndex prev v)
           \<and> isPlaying v' = (isPlaying v \<and> (playbackDepsChanged prev v \<longrightarrow>
                 playingIndexRef (syncPlayingIndex prev v) < int (length td) - 1))"
proof -
  from runEffects_valid [OF assms, of prev] obtain v1 where
    v1: "runEffects td prev v = Inr v1" "indices_valid td v1"
      "currentIndex v1 = currentIndex v" "playbackSpeed v1 = playbackSpeed v"
      "playingIndexRef v1 = playingIndexRef (syncPlayingIndex prev v)"
      "isPlaying v1 = (isPlaying v \<and> (playbackDepsChanged prev v \<longrightarrow>
                 playingIndexRef (syncPlayingIndex prev v) < int (length td) - 1))"
    by blast
  from runEffects_valid [OF v1(2), of v] obtain v2 where
    v2: "runEffects td v v1 = Inr v2" "indices_valid td v2"
      "currentIndex v2 = currentIndex v1" "playbackSpeed v2 = playbackSpeed v1"
      "playingIndexRef v2 = playingIndexRef (syncPlayingIndex v v1)"
      "isPlaying v2 = (isPlaying v1 \<and> (playbackDepsChanged v v1 \<longrightarrow>
                 playingIndexRef (syncPlayingIndex v v1) < int (length td) - 1))"
    by blast
  have s: "syncPlayingIndex v v1 = v1"
    using v1(3) by (rule syncPlayingIndex_same)
  have "isPlaying v2 = isPlaying v1"
    using v2(6) v1(4,6) by (auto simp: playbackDepsChanged_def)
  with v1 v2 s show ?thesis
    by (simp add: flush_def)
qed

lemma handlers_valid:
  assumes "indices_valid td v"
  shows "indices_valid td (handlePlayPause td v)"
    and "indices_valid td (handleKeyPress td key v)"
    and "0 \<le> i \<Longrightarrow> i \<le> int (length td) - 1 \<Longrightarrow> indices_valid td (handleSliderChange i v)"
    and "indices_valid td (setPlaybackSpeed s v)"
  using assms
  by (auto simp: indices_valid_def Let_def handlePlayPause_def handleKeyPress_def
      handleSliderChange_def setPlaybackSpeed_def)

lemma find_timer_valid:
  assumes "indices_valid td v" and "find (\<lambda>t. timer_id t = h) (armed v) = Some t"
  shows "0 \<le> timer_next t \<and> timer_next t < int (length td)"
proof -
  from assms(2) have "t \<in> set (armed v)"
    by (auto simp: find_Some_iff)
  with assms(1) show ?thesis
    by (auto simp: indices_valid_def Let_def list_all_iff)
qed

lemma step_valid:
  assumes "indices_valid td v" and "playingIndexRef v = currentIndex v" and "deliverable td e"
  shows "\<exists>v'. step td e v = Inr v' \<and> indices_valid td v'
           \<and> playingIndexRef v' = currentIndex v'"
proof (cases e)
  case PlayPauseClick
  have "playingIndexRef (handlePlayPause td v) = currentIndex v"
    using assms(2) by (simp add: handlePlayPause_def)
  from syncPlayingIndex_synced [OF this]
    flush_valid [OF handlers_valid(1) [OF assms(1)], of v] PlayPauseClick
  show ?thesis by (auto simp: step_def)
next
  case (KeyDown key)
  have "playingIndexRef (handleKeyPress td key v) = currentIndex v"
    using assms(2) by (simp add: handleKeyPress_def)
  from syncPlayingIndex_synced [OF this]
    flush_valid [OF handlers_valid(2) [OF assms(1)], of v key] KeyDown
  show ?thesis by (auto simp: step_def)
next
  case (SliderInput i)
  with assms(3) have i: "0 \<le> i" "i \<le> int (length td) - 1"
    by (simp_all add: deliverable_def)
  have "playingIndexRef (handleSliderChange i v) = currentIndex v"
    using assms(2) by (simp add: handleSliderChange_def)
  from syncPlayingIndex_synced [OF this]
    flush_valid [OF handlers_valid(3) [OF assms(1) i], of v] SliderInput
  show ?thesis by (auto simp: step_def)
next
  case (SpeedInput s)
  have "playingIndexRef (setPlaybackSpeed s v) = currentIndex v"
    using assms(2) by (simp add: setPlaybackSpeed_def)
  from syncPlayingIndex_synced [OF this]
    flush_valid [OF handlers_valid(4) [OF assms(1)], of v s] SpeedInput
  show ?thesis by (auto simp: step_def)
next
  case (TimeoutFires h)
  show ?thesis
  proof (cases "find (\<lambda>t. timer_id t = h) (armed v)")
    case None
    with TimeoutFires assms(1,2) show ?thesis by (simp add: step_def)
  next
    case (Some t)
    let ?v0 = "v\<lparr>armed := filter (\<lambda>u. timer_id u \<noteq> h) (armed v),
                 currentIndex := timer_next t, playingIndexRef := timer_next t\<rparr>"
    from find_timer_valid [OF assms(1) Some] assms(1) have "indices_valid td ?v0"
      by (auto simp: indices_valid_def Let_def list_all_iff)
    from advanceFrame_valid [OF this, of "timer_speed t"] obtain v1 where
      v1: "advanceFrame td (timer_speed t) ?v0 = Inr v1" "indices_valid td v1"
        "currentIndex v1 = timer_next t" "playingIndexRef v1 = timer_next t"
      by auto
    have "playingIndexRef (syncPlayingIndex v v1) = currentIndex v1"
      using v1(3,4) by (simp add: syncPlayingIndex_def)
    with flush_valid [OF v1(2), of v] v1(1) TimeoutFires Some show ?thesis
      by (auto simp: step_def timeoutCallback_def)
  qed
qed

lemma initial_valid: "1 \<le> length td \<Longrightarrow> indices_valid td initial_viewer"
  by (cases td) (simp_all add: indices_valid_def initial_viewer_def)

section \<open>At most one timeout is armed, and it is on schedule\<close>

lemma settled_playing:
  "settled v \<Longrightarrow> isPlaying v \<Longrightarrow>
     \<exists>t. armed v = [t] \<and> playIntervalRef v = Some (timer_id t) \<and> 0 < timer_id t"
  by (cases "armed v") (auto simp: settled_def tidy_def)

lemma settled_stopped: "settled v \<Longrightarrow> \<not> isPlaying v \<Longrightarrow> armed v = []"
  by (simp add: settled_def)

lemma clear_tidy:
  assumes "tidy v"
  shows "armed (clearPlayInterval v) = []"
proof (cases "armed v")
  case Nil
  then show ?thesis by (simp add: clearPlayInterval_def split: option.splits)
next
  case (Cons t ts)
  with assms have "ts = []" "playIntervalRef v = Some (timer_id t)" "0 < timer_id t"
    by (simp_all add: tidy_def)
  with Cons show ?thesis by (simp add: clearPlayInterval_def)
qed

lemma clear_empty: "armed v = [] \<Longrightarrow> armed (clearPlayInterval v) = []"
  by (simp add: clearPlayInterval_def split: option.splits)

lemma advanceFrame_settles:
  assumes "armed v = []" and "0 < next_handle v" and "0 \<le> playingIndexRef v"
    and "isPlaying v" and "s = playbackSpeed v"
  shows "\<exists>v'. advanceFrame td s v = Inr v' \<and> settled v' \<and> on_schedule td v'"
proof (cases "playingIndexRef v \<ge> int (length td) - 1")
  case True
  with assms show ?thesis
    by (simp add: advanceFrame_stops settled_def tidy_def on_schedule_def)
next
  case False
  with assms(3) have "advanceFrame td s v
               = Inr (setTimeout_ref (adjustedInterval td (playingIndexRef v) s)
                        (playingIndexRef v + 1) s v)"
    by (intro advanceFrame_schedules) simp_all
  with assms show ?thesis
    by (simp add: setTimeout_ref_def settled_def tidy_def on_schedule_def)
qed

lemma playbackEffect_settles:
  assumes "tidy v" and "\<not> w \<Longrightarrow> armed v = []" and "0 \<le> playingIndexRef v"
  shows "\<exists>v'. playbackEffect td w v = Inr v' \<and> settled v' \<and> on_schedule td v'"
proof -
  let ?v1 = "if w then clearPlayInterval v else v"
  have e: "armed ?v1 = []" using assms(1,2) by (simp add: clear_tidy)
  have h: "0 < next_handle ?v1" using assms(1) by (simp add: clearPlayInterval_keeps tidy_def)
  have k: "playingIndexRef ?v1 = playingIndexRef v" "isPlaying ?v1 = isPlaying v"
    by (simp_all add: clearPlayInterval_keeps)
  show ?thesis
  proof (cases "isPlaying v")
    case True
    with k have p: "isPlaying ?v1" by simp
    from assms(3) k have i: "0 \<le> playingIndexRef ?v1" by simp
    from advanceFrame_settles [OF e h i p refl, of td] p show ?thesis
      unfolding playbackEffect_def Let_def by simp
  next
    case False
    with k have p: "\<not> isPlaying ?v1" by simp
    have "settled (clearPlayInterval ?v1) \<and> on_schedule td (clearPlayInterval ?v1)"
      using e h p
      by (simp add: settled_def tidy_def on_schedule_def clear_empty clearPlayInterval_keeps)
    with p show ?thesis
      unfolding playbackEffect_def Let_def by simp
  qed
qed

lemma settled_cong:
  "settled v \<Longrightarrow> armed u = armed v \<Longrightarrow> playIntervalRef u = playIntervalRef v \<Longrightarrow>
     next_handle u = next_handle v \<Longrightarrow> isPlaying u = isPlaying v \<Longrightarrow> settled u"
  by (simp add: settled_def tidy_def)

lemma on_schedule_cong:
  "on_schedule td v \<Longrightarrow> armed u = armed v \<Longrightarrow> playbackSpeed u = playbackSpeed v \<Longrightarrow>
     on_schedule td u"
  by (simp add: on_schedule_def)

lemma runEffects_settles:
  assumes "tidy v" and "\<not> isPlaying prev \<Longrightarrow> armed v = []"
    and "\<not> playbackDepsChanged prev v \<Longrightarrow> settled v \<and> on_schedule td v"
    and "0 \<le> currentIndex v" and "0 \<le> playingIndexRef v"
  shows "\<exists>v'. runEffects td prev v = Inr v' \<and> settled v' \<and> on_schedule td v'"
proof (cases "playbackDepsChanged prev v")
  case True
  have t: "tidy (syncPlayingIndex prev v)"
    using assms(1) by (simp add: tidy_def syncPlayingIndex_keeps)
  have e: "\<not> isPlaying prev \<Longrightarrow> armed (syncPlayingIndex prev v) = []"
    using assms(2) by (simp add: syncPlayingIndex_keeps)
  have i: "0 \<le> playingIndexRef (syncPlayingIndex prev v)"
    using assms(4,5) by (simp add: syncPlayingIndex_def)
  from playbackEffect_settles [OF t e i, where td = td] show ?thesis
    by (simp add: runEffects_changed [OF True])
next
  case False
  with assms(3) have s: "settled v" "on_schedule td v" by simp_all
  from s(1) have "settled (syncPlayingIndex prev v)"
    by (rule settled_cong) (simp_all add: syncPlayingIndex_keeps)
  moreover from s(2) have "on_schedule td (syncPlayingIndex prev v)"
    by (rule on_schedule_cong) (simp_all add: syncPlayingIndex_keeps)
  ultimately show ?thesis using False by (simp add: runEffects_unchanged)
qed

lemma flush_settles:
  assumes "tidy v" and "\<not> isPlaying prev \<Longrightarrow> armed v = []"
    and "\<not> playbackDepsChanged prev v \<Longrightarrow> settled v \<and> on_schedule td v"
    and "indices_valid td v"
  shows "\<exists>v'. flush td prev v = Inr v' \<and> settled v' \<and> on_schedule td v'"
proof -
  from assms(4) have r: "0 \<le> currentIndex v" "0 \<le> playingIndexRef v"
    by (simp_all add: indices_valid_def Let_def)
  from runEffects_settles [OF assms(1-3) r] obtain v1 where
    v1: "runEffects td prev v = Inr v1" "settled v1" "on_schedule td v1" by blast
  from runEffects_valid [OF assms(4), of prev] v1(1) have
    w: "indices_valid td v1" "isPlaying v1 \<longrightarrow> isPlaying v" by auto
  have a: "tidy v1" using v1(2) by (simp add: settled_def)
  have b: "\<not> isPlaying v \<Longrightarrow> armed v1 = []"
    using v1(2) w(2) by (auto simp: settled_def)
  have c: "\<not> playbackDepsChanged v v1 \<Longrightarrow> settled v1 \<and> on_schedule td v1"
    using v1(2,3) by simp
  from w(1) have r1: "0 \<le> currentIndex v1" "0 \<le> playingIndexRef v1"
    by (simp_all add: indices_valid_def Let_def)
  from runEffects_settles [OF a b c r1, where prev = v] v1(1)
  show ?thesis by (auto simp: flush_def)
qed

lemma handler_flush_settles:
  assumes "settled v" and "on_schedule td v" and "armed u = armed v"
    and "playIntervalRef u = playIntervalRef v"
    and "next_handle u = next_handle v" and "indices_valid td u"
  shows "\<exists>v'. flush td v u = Inr v' \<and> settled v' \<and> on_schedule td v'"
proof (rule flush_settles)
  show "tidy u" using assms(1,3-5) by (simp add: settled_def tidy_def)
  show "armed u = []" if "\<not> isPlaying v" using that assms(1,3) by (simp add: settled_def)
  show "settled u \<and> on_schedule td u" if "\<not> playbackDepsChanged v u"
  proof
    show "settled u"
      using assms(1,3-5) that
      by (intro settled_cong [of v u]) (simp_all add: playbackDepsChanged_def)
    show "on_schedule td u"
      using assms(2,3) that
      by (intro on_schedule_cong [of td v u]) (simp_all add: playbackDepsChanged_def)
  qed
  show "indices_valid td u" by (rule assms(6))
qed

lemma step_settled:
  assumes "settled v" and "on_schedule td v" and "indices_valid td v" and "deliverable td e"
  shows "\<exists>v'. step td e v = Inr v' \<and> settled v' \<and> on_schedule td v'"
proof (cases e)
  case PlayPauseClick
  have "\<exists>v'. flush td v (handlePlayPause td v) = Inr v' \<and> settled v' \<and> on_schedule td v'"
    using assms(1,2) handlers_valid(1) [OF assms(3)]
    by (intro handler_flush_settles) (simp_all add: handlePlayPause_def)
  with PlayPauseClick show ?thesis by (simp add: step_def)
next
  case (KeyDown key)
  have "\<exists>v'. flush td v (handleKeyPress td key v) = Inr v' \<and> settled v' \<and> on_schedule td v'"
    using assms(1,2) handlers_valid(2) [OF assms(3)]
    by (intro handler_flush_settles) (simp_all add: handleKeyPress_def)
  with KeyDown show ?thesis by (simp add: step_def)
next
  case (SliderInput i)
  with assms(4) have "0 \<le> i" "i \<le> int (length td) - 1" by (simp_all add: deliverable_def)
  then have "\<exists>v'. flush td v (handleSliderChange i v) = Inr v' \<and> settled v'
               \<and> on_schedule td v'"
    using assms(1,2) handlers_valid(3) [OF assms(3)]
    by (intro handler_flush_settles) (simp_all add: handleSliderChange_def)
  with SliderInput show ?thesis by (simp add: step_def)
next
  case (SpeedInput s)
  have "\<exists>v'. flush td v (setPlaybackSpeed s v) = Inr v' \<and> settled v' \<and> on_schedule td v'"
    using assms(1,2) handlers_valid(4) [OF assms(3)]
    by (intro handler_flush_settles) (simp_all add: setPlaybackSpeed_def)
  with SpeedInput show ?thesis by (simp add: step_def)
next
  case (TimeoutFires h)
  show ?thesis
  proof (cases "find (\<lambda>t. timer_id t = h) (armed v)")
    case None
    with TimeoutFires assms(1,2) show ?thesis by (simp add: step_def)
  next
    case (Some t)
    then have av: "armed v \<noteq> []" by auto
    with assms(1) have p: "isPlaying v" by (simp add: settled_def)
    from settled_playing [OF assms(1) p] obtain t' where
      t': "armed v = [t']" "playIntervalRef v = Some (timer_id t')" "0 < timer_id t'"
      by blast
    with Some have tt: "t' = t" "timer_id t = h" by (auto split: if_splits)
    let ?v0 = "v\<lparr>armed := filter (\<lambda>u. timer_id u \<noteq> h) (armed v),
                 currentIndex := timer_next t, playingIndexRef := timer_next t\<rparr>"
    from find_timer_valid [OF assms(3) Some] have n: "0 \<le> timer_next t" by simp
    have e0: "armed ?v0 = []" using t' tt by simp
    have h0: "0 < next_handle ?v0" using assms(1) by (simp add: settled_def tidy_def)
    have s0: "timer_speed t = playbackSpeed ?v0"
      using assms(2) t'(1) tt(1) by (simp add: on_schedule_def)
    from advanceFrame_settles [OF e0 h0 _ _ s0, where td = td] n p
    obtain v1 where
      v1: "advanceFrame td (timer_speed t) ?v0 = Inr v1" "settled v1" "on_schedule td v1"
      by auto
    from find_timer_valid [OF assms(3) Some] assms(3) have "indices_valid td ?v0"
      by (auto simp: indices_valid_def Let_def list_all_iff)
    from advanceFrame_valid [OF this, of "timer_speed t"] v1(1) have iv: "indices_valid td v1"
      by auto
    have "\<exists>v'. flush td v v1 = Inr v' \<and> settled v' \<and> on_schedule td v'"
    proof (rule flush_settles)
      show "tidy v1" using v1(2) by (simp add: settled_def)
      show "armed v1 = []" if "\<not> isPlaying v" using that p by simp
      show "settled v1 \<and> on_schedule td v1" using v1(2,3) by simp
      show "indices_valid td v1" by (rule iv)
    qed
    with TimeoutFires Some v1(1) show ?thesis
      by (simp add: step_def timeoutCallback_def)
  qed
qed

lemma step_inv:
  assumes "scheduler_inv td v" and "deliverable td e"
  shows "\<exists>v'. step td e v = Inr v' \<and> scheduler_inv td v'"
proof -
  from assms(1) have a: "settled v" "indices_valid td v" "playingIndexRef v = currentIndex v"
    "on_schedule td v" by (simp_all add: scheduler_inv_def)
  from step_settled [OF a(1,4,2) assms(2)] step_valid [OF a(2,3) assms(2)]
  show ?thesis by (auto simp: scheduler_inv_def)
qed

lemma initial_inv: "1 \<le> length td \<Longrightarrow> scheduler_inv td initial_viewer"
  using initial_valid [of td]
  by (simp add: scheduler_inv_def settled_def tidy_def on_schedule_def initial_viewer_def)

lemma run_inv:
  "scheduler_inv td v \<Longrightarrow> \<forall>e\<in>set es. deliverable td e \<Longrightarrow>
     \<exists>v'. run td es v = Inr v' \<and> scheduler_inv td v'"
proof (induction es arbitrary: v)
  case Nil
  then show ?case by simp
next
  case (Cons e es)
  from Cons.prems step_inv [of td v e] obtain v1 where
    "step td e v = Inr v1" "scheduler_inv td v1" by auto
  with Cons.IH [of v1] Cons.prems(2) show ?case by auto
qed

lemma run_append:
  "run td (es @ fs) v = (case run td es v of Inl err \<Rightarrow> Inl err | Inr v' \<Rightarrow> run td fs v')"
  by (induction es arbitrary: v) (simp_all split: sum.splits)

section \<open>Scheduler: what single events do\<close>

lemmas viewer_defs = step_def flush_def runEffects_def syncPlayingIndex_def
  playbackDepsChanged_def playbackEffect_def advanceFrame_def
  clearPlayInterval_def setTimeout_ref_def handlePlayPause_def handleKeyPress_def
  handleSliderChange_def setPlaybackSpeed_def timeoutCallback_def at_index_def Let_def

lemma flush_stopped:
  assumes "\<not> isPlaying v" and "armed v = []"
  shows "\<exists>v'. flush td prev v = Inr v' \<and> armed v' = [] \<and> \<not> isPlaying v'
           \<and> currentIndex v' = currentIndex v"
proof -
  have "\<exists>v1. runEffects td prev v = Inr v1 \<and> armed v1 = [] \<and> \<not> isPlaying v1
           \<and> currentIndex v1 = currentIndex v \<and> playbackSpeed v1 = playbackSpeed v"
    using assms
    by (simp add: runEffects_def playbackEffect_def Let_def clear_empty
        clearPlayInterval_keeps syncPlayingIndex_keeps)
  then obtain v1 where v1: "runEffects td prev v = Inr v1" "armed v1 = []" "\<not> isPlaying v1"
    "currentIndex v1 = currentIndex v" "playbackSpeed v1 = playbackSpeed v" by blast
  with assms(1) have "flush td prev v = Inr v1"
    by (intro flush_one_pass) simp_all
  with v1 show ?thesis by simp
qed









section \<open>Scheduler: runs of the example recording\<close>


lemma demo_play:
  "step demo_samples PlayPauseClick initial_viewer
     = Inr \<lparr>currentIndex = 0, isPlaying = True, playbackSpeed = Fin 1, playingIndexRef = 0,
            playIntervalRef = Some 1,
            armed = [\<lparr>timer_id = 1, timer_delay = Fin 100, timer_next = 1,
                      timer_speed = Fin 1\<rparr>],
            next_handle = 2\<rparr>"
  by (simp add: viewer_defs demo_samples_value initial_viewer_def double_eval)



lemma demo_arrow_1:
  "step demo_samples (KeyDown ''ArrowRight'')
      \<lparr>currentIndex = 0, isPlaying = True, playbackSpeed = Fin 1, playingIndexRef = 0,
       playIntervalRef = Some 1,
       armed = [\<lparr>timer_id = 1, timer_delay = Fin 100, timer_next = 1, timer_speed = Fin 1\<rparr>],
       next_handle = 2\<rparr>
     = Inr \<lparr>currentIndex = 1, isPlaying = True, playbackSpeed = Fin 1, playingIndexRef = 1,
            playIntervalRef = Some 1,
            armed = [\<lparr>timer_id = 1, timer_delay = Fin 100, timer_next = 1,
                      timer_speed = Fin 1\<rparr>],
            next_handle = 2\<rparr>"
  by (simp add: viewer_defs demo_samples_value)

lemma demo_arrow_2:
  "step demo_samples (KeyDown ''ArrowRight'')
      \<lparr>currentIndex = 1, isPlaying = True, playbackSpeed = Fin 1, playingIndexRef = 1,
       playIntervalRef = Some 1,
       armed = [\<lparr>timer_id = 1, timer_delay = Fin 100, timer_next = 1, timer_speed = Fin 1\<rparr>],
       next_handle = 2\<rparr>
     = Inr \<lparr>currentIndex = 2, isPlaying = True, playbackSpeed = Fin 1, playingIndexRef = 2,
            playIntervalRef = Some 1,
            armed = [\<lparr>timer_id = 1, timer_delay = Fin 100, timer_next = 1,
                      timer_speed = Fin 1\<rparr>],
            next_handle = 2\<rparr>"
  by (simp add: viewer_defs demo_samples_value)

lemma demo_stale_timer:
  "step demo_samples (TimeoutFires 1)
      \<lparr>currentIndex = 2, isPlaying = True, playbackSpeed = Fin 1, playingIndexRef = 2,
       playIntervalRef = Some 1,
       armed = [\<lparr>timer_id = 1, timer_delay = Fin 100, timer_next = 1, timer_speed = Fin 1\<rparr>],
       next_handle = 2\<rparr>
     = Inr \<lparr>currentIndex = 1, isPlaying = True, playbackSpeed = Fin 1, playingIndexRef = 1,
            playIntervalRef = Some 2,
            armed = [\<lparr>timer_id = 2, timer_delay = Fin (7036874417766399 / 35184372088832),
                      timer_next = 2, timer_speed = Fin 1\<rparr>],
            next_handle = 3\<rparr>"
  by (simp add: viewer_defs demo_samples_value double_eval)

lemma demo_speed_at_end:
  "step demo_samples (SpeedInput (Fin 2))
      \<lparr>currentIndex = 2, isPlaying = True, playbackSpeed = Fin 1, playingIndexRef = 2,
       playIntervalRef = Some 1,
       armed = [\<lparr>timer_id = 1, timer_delay = Fin 100, timer_next = 1, timer_speed = Fin 1\<rparr>],
       next_handle = 2\<rparr>
     = Inr \<lparr>currentIndex = 2, isPlaying = False, playbackSpeed = Fin 2, playingIndexRef = 2,
            playIntervalRef = None, armed = [], next_handle = 2\<rparr>"
  by (simp add: viewer_defs demo_samples_value)



lemma demo_replay:
  "step demo_samples PlayPauseClick
      \<lparr>currentIndex = 2, isPlaying = False, playbackSpeed = Fin 1, playingIndexRef = 2,
       playIntervalRef = None, armed = [], next_handle = 3\<rparr>
     = Inr \<lparr>currentIndex = 0, isPlaying = True, playbackSpeed = Fin 1, playingIndexRef = 0,
            playIntervalRef = Some 3,
            armed = [\<lparr>timer_id = 3, timer_delay = Fin 100, timer_next = 1,
                      timer_speed = Fin 1\<rparr>],
            next_handle = 4\<rparr>"
  by (simp add: viewer_defs demo_samples_value double_eval)

lemma run_step: "step td e v = Inr v' \<Longrightarrow> run td (e # es) v = run td es v'"
  by simp



section \<open>Claims about the playback scheduler\<close>




text \<open>
  C3 (keyboard half): the example recording is played from the start and the right arrow
  key is pressed. The scheduler is still playing and the timeout armed for index 1 is
  still armed; after a second press (index 2) that timeout runs, puts the index back to 1
  and arms the advancement to 2. (The slider half of the claim holds:
  \<open>slider_scrub_pauses\<close>.)
\<close>

theorem keyboard_step_keeps_playing:
  "run demo_samples [PlayPauseClick, KeyDown ''ArrowRight''] initial_viewer
     = Inr \<lparr>currentIndex = 1, isPlaying = True, playbackSpeed = Fin 1, playingIndexRef = 1,
            playIntervalRef = Some 1,
            armed = [\<lparr>timer_id = 1, timer_delay = Fin 100, timer_next = 1,
                      timer_speed = Fin 1\<rparr>],
            next_handle = 2\<rparr>
   \<and> run demo_samples
         [PlayPauseClick, KeyDown ''ArrowRight'', KeyDown ''ArrowRight'', TimeoutFires 1]
         initial_viewer
     = Inr \<lparr>currentIndex = 1, isPlaying = True, playbackSpeed = Fin 1, playingIndexRef = 1,
            playIntervalRef = Some 2,
            armed = [\<lparr>timer_id = 2, timer_delay = Fin (7036874417766399 / 35184372088832),
                      timer_next = 2, timer_speed = Fin 1\<rparr>],
            next_handle = 3\<rparr>"
  by (simp only: run_step [OF demo_play] run_step [OF demo_arrow_1] run_step [OF demo_arrow_2]
      run_step [OF demo_stale_timer] run.simps(1) simp_thms)

lemma slider_scrub_pauses:
  assumes "scheduler_inv td v" and "deliverable td (SliderInput i)"
  shows "\<exists>v'. step td (SliderInput i) v = Inr v' \<and> currentIndex v' = i \<and> \<not> isPlaying v'
           \<and> armed v' = []"
proof -
  let ?u = "handleSliderChange i v"
  from assms(1) have s: "settled v" "on_schedule td v" "indices_valid td v"
    by (simp_all add: scheduler_inv_def)
  from assms(2) have i: "0 \<le> i" "i \<le> int (length td) - 1" by (simp_all add: deliverable_def)
  have u: "indices_valid td ?u" by (rule handlers_valid(3) [OF s(3) i])
  have "\<exists>v'. flush td v ?u = Inr v' \<and> settled v' \<and> on_schedule td v'"
    using s(1,2) u by (intro handler_flush_settles) (simp_all add: handleSliderChange_def)
  moreover from flush_valid [OF u, of v] have
    "\<exists>v'. flush td v ?u = Inr v' \<and> currentIndex v' = i \<and> \<not> isPlaying v'"
    by (auto simp: handleSliderChange_def)
  ultimately show ?thesis
    by (auto simp: step_def dest: settled_stopped)
qed




text \<open>
  C5. For a recording of \<open>N \<ge> 1\<close> samples and every sequence of events the controls and the
  timeouts can deliver, after each prefix of the sequence \<open>currentIndex\<close> is in
  \<open>[0, N - 1]\<close>; there the right arrow key moves it to \<open>min (currentIndex + 1) (N - 1)\<close>, the
  left arrow key to \<open>max (currentIndex - 1) 0\<close>, and the slider to the index it delivers; at
  index \<open>N - 1\<close> the right arrow key, and at index 0 the left arrow key, change nothing at
  all.
\<close>

theorem currentIndex_in_range:
  assumes "1 \<le> length td" and "\<forall>e\<in>set es. deliverable td e"
  shows "(\<forall>k\<le>length es. \<exists>v. run td (take k es) initial_viewer = Inr v
            \<and> 0 \<le> currentIndex v \<and> currentIndex v \<le> int (length td) - 1
            \<and> (\<exists>r. step td (KeyDown ''ArrowRight'') v = Inr r
                 \<and> currentIndex r = min (currentIndex v + 1) (int (length td) - 1))
            \<and> (\<exists>l. step td (KeyDown ''ArrowLeft'') v = Inr l
                 \<and> currentIndex l = max (currentIndex v - 1) 0)
            \<and> (\<forall>i. 0 \<le> i \<and> i \<le> int (length td) - 1 \<longrightarrow>
                 (\<exists>s. step td (SliderInput i) v = Inr s \<and> currentIndex s = i)))
       \<and> (\<forall>v. currentIndex v = int (length td) - 1 \<longrightarrow>
              step td (KeyDown ''ArrowRight'') v = Inr v)
       \<and> (\<forall>v. currentIndex v = 0 \<longrightarrow> step td (KeyDown ''ArrowLeft'') v = Inr v)"
proof (intro conjI allI impI)
  fix k assume "k \<le> length es"
  have "\<forall>e\<in>set (take k es). deliverable td e"
    using assms(2) by (meson in_set_takeD)
  from run_inv [OF initial_inv [OF assms(1)] this] obtain v where
    v: "run td (take k es) initial_viewer = Inr v" "scheduler_inv td v" by blast
  from v(2) have iv: "indices_valid td v" by (simp add: scheduler_inv_def)
  then have "0 \<le> currentIndex v \<and> currentIndex v \<le> int (length td) - 1"
    by (simp add: indices_valid_def Let_def)
  moreover have "\<exists>r. step td (KeyDown ''ArrowRight'') v = Inr r
                 \<and> currentIndex r = min (currentIndex v + 1) (int (length td) - 1)"
    using flush_valid [OF handlers_valid(2) [OF iv], of v "''ArrowRight''"]
    by (auto simp: step_def handleKeyPress_def)
  moreover have "\<exists>l. step td (KeyDown ''ArrowLeft'') v = Inr l
                 \<and> currentIndex l = max (currentIndex v - 1) 0"
    using flush_valid [OF handlers_valid(2) [OF iv], of v "''ArrowLeft''"]
    by (auto simp: step_def handleKeyPress_def)
  moreover have "\<exists>s. step td (SliderInput i) v = Inr s \<and> currentIndex s = i"
    if "0 \<le> i \<and> i \<le> int (length td) - 1" for i
    using flush_valid [OF handlers_valid(3) [OF iv], of i v] that
    by (auto simp: step_def handleSliderChange_def)
  ultimately show "\<exists>v. run td (take k es) initial_viewer = Inr v
            \<and> 0 \<le> currentIndex v \<and> currentIndex v \<le> int (length td) - 1
            \<and> (\<exists>r. step td (KeyDown ''ArrowRight'') v = Inr r
                 \<and> currentIndex r = min (currentIndex v + 1) (int (length td) - 1))
            \<and> (\<exists>l. step td (KeyDown ''ArrowLeft'') v = Inr l
                 \<and> currentIndex l = max (currentIndex v - 1) 0)
            \<and> (\<forall>i. 0 \<le> i \<and> i \<le> int (length td) - 1 \<longrightarrow>
                 (\<exists>s. step td (SliderInput i) v = Inr s \<and> currentIndex s = i))"
    using v(1) by blast
next
  fix v :: viewer assume "currentIndex v = int (length td) - 1"
  then have "handleKeyPress td ''ArrowRight'' v = v"
    by (simp add: handleKeyPress_def)
  then show "step td (KeyDown ''ArrowRight'') v = Inr v"
    by (simp add: step_def flush_same)
next
  fix v :: viewer assume "currentIndex v = 0"
  then have "handleKeyPress td ''ArrowLeft'' v = v"
    by (simp add: handleKeyPress_def)
  then show "step td (KeyDown ''ArrowLeft'') v = Inr v"
    by (simp add: step_def flush_same)
qed

theorem currentIndex_in_range_witness:
  "(\<exists>v. run demo_samples [PlayPauseClick, TimeoutFires 1, KeyDown ''ArrowRight'']
            initial_viewer = Inr v
       \<and> 0 \<le> currentIndex v \<and> currentIndex v \<le> 2
       \<and> (\<exists>r. step demo_samples (KeyDown ''ArrowRight'') v = Inr r
             \<and> currentIndex r = min (currentIndex v + 1) 2)
       \<and> (\<exists>l. step demo_samples (KeyDown ''ArrowLeft'') v = Inr l
             \<and> currentIndex l = max (currentIndex v - 1) 0)
       \<and> (\<exists>s. step demo_samples (SliderInput 1) v = Inr s \<and> currentIndex s = 1))
   \<and> step demo_samples (KeyDown ''ArrowRight'')
        \<lparr>currentIndex = 2, isPlaying = False, playbackSpeed = Fin 1, playingIndexRef = 2,
         playIntervalRef = None, armed = [], next_handle = 3\<rparr>
     = Inr \<lparr>currentIndex = 2, isPlaying = False, playbackSpeed = Fin 1, playingIndexRef = 2,
            playIntervalRef = None, armed = [], next_handle = 3\<rparr>
   \<and> step demo_samples (KeyDown ''ArrowLeft'') initial_viewer = Inr initial_viewer"
proof -
  let ?es = "[PlayPauseClick, TimeoutFires 1, KeyDown ''ArrowRight'']"
  let ?e = "\<lparr>currentIndex = 2, isPlaying = False, playbackSpeed = Fin 1, playingIndexRef = 2,
         playIntervalRef = None, armed = [], next_handle = 3\<rparr>"
  have n: "1 \<le> length demo_samples" by (simp add: demo_samples_def)
  have l: "int (length demo_samples) = 3" by (simp add: demo_samples_def)
  have d: "\<forall>e\<in>set ?es. deliverable demo_samples e" by (simp add: deliverable_def)
  note th = currentIndex_in_range [OF n d]
  note prefix = conjunct1 [OF th, rule_format, where k = 3]
  note right = conjunct1 [OF conjunct2 [OF th], rule_format, where v = "?e"]
  note left = conjunct2 [OF conjunct2 [OF th], rule_format, where v = initial_viewer]
  from prefix obtain v where
    v: "run demo_samples ?es initial_viewer = Inr v"
      "0 \<le> currentIndex v" "currentIndex v \<le> 2"
      "\<exists>r. step demo_samples (KeyDown ''ArrowRight'') v = Inr r
             \<and> currentIndex r = min (currentIndex v + 1) 2"
      "\<exists>l. step demo_samples (KeyDown ''ArrowLeft'') v = Inr l
             \<and> currentIndex l = max (currentIndex v - 1) 0"
      "\<forall>i. 0 \<le> i \<and> i \<le> 2 \<longrightarrow> (\<exists>s. step demo_samples (SliderInput i) v = Inr s
             \<and> currentIndex s = i)"
    by (auto simp: l)
  from v(6) have "\<exists>s. step demo_samples (SliderInput 1) v = Inr s \<and> currentIndex s = 1"
    by simp
  with v(1-5) have a: "\<exists>v. run demo_samples ?es initial_viewer = Inr v
       \<and> 0 \<le> currentIndex v \<and> currentIndex v \<le> 2
       \<and> (\<exists>r. step demo_samples (KeyDown ''ArrowRight'') v = Inr r
             \<and> currentIndex r = min (currentIndex v + 1) 2)
       \<and> (\<exists>l. step demo_samples (KeyDown ''ArrowLeft'') v = Inr l
             \<and> currentIndex l = max (currentIndex v - 1) 0)
       \<and> (\<exists>s. step demo_samples (SliderInput 1) v = Inr s \<and> currentIndex s = 1)"
    by blast
  from right have b: "step demo_samples (KeyDown ''ArrowRight'') ?e = Inr ?e"
    by (simp add: l)
  from left have c: "step demo_samples (KeyDown ''ArrowLeft'') initial_viewer
                       = Inr initial_viewer"
    by (simp add: initial_viewer_def)
  from a b c show ?thesis by (intro conjI)
qed





text \<open>
  C10: the example recording is played from the start and the right arrow key is pressed
  twice, which leaves the scheduler playing at the last index; an input of the speed slider
  then stops playback.
\<close>

theorem speed_change_stops_at_end:
  "run demo_samples [PlayPauseClick, KeyDown ''ArrowRight'', KeyDown ''ArrowRight'']
      initial_viewer
     = Inr \<lparr>currentIndex = 2, isPlaying = True, playbackSpeed = Fin 1, playingIndexRef = 2,
            playIntervalRef = Some 1,
            armed = [\<lparr>timer_id = 1, timer_delay = Fin 100, timer_next = 1,
                      timer_speed = Fin 1\<rparr>],
            next_handle = 2\<rparr>
   \<and> step demo_samples (SpeedInput (Fin 2))
       \<lparr>currentIndex = 2, isPlaying = True, playbackSpeed = Fin 1, playingIndexRef = 2,
        playIntervalRef = Some 1,
        armed = [\<lparr>timer_id = 1, timer_delay = Fin 100, timer_next = 1,
                  timer_speed = Fin 1\<rparr>],
        next_handle = 2\<rparr>
     = Inr \<lparr>currentIndex = 2, isPlaying = False, playbackSpeed = Fin 2, playingIndexRef = 2,
            playIntervalRef = None, armed = [], next_handle = 2\<rparr>"
proof (intro conjI)
  show "run demo_samples [PlayPauseClick, KeyDown ''ArrowRight'', KeyDown ''ArrowRight'']
      initial_viewer
     = Inr \<lparr>currentIndex = 2, isPlaying = True, playbackSpeed = Fin 1, playingIndexRef = 2,
            playIntervalRef = Some 1,
            armed = [\<lparr>timer_id = 1, timer_delay = Fin 100, timer_next = 1,
                      timer_speed = Fin 1\<rparr>],
            next_handle = 2\<rparr>"
    by (simp only: run_step [OF demo_play] run_step [OF demo_arrow_1]
        run_step [OF demo_arrow_2] run.simps(1))
qed (rule demo_speed_at_end)

text \<open>
  In every state where playing implies that the index is before the last, an input of the
  speed slider sets the speed and changes neither \<open>currentIndex\<close> nor \<open>isPlaying\<close>.
\<close>

lemma speed_change_frame:
  assumes "indices_valid td v"
  shows "\<exists>v'. step td (SpeedInput s) v = Inr v' \<and> playbackSpeed v' = s
           \<and> currentIndex v' = currentIndex v
           \<and> isPlaying v' = (isPlaying v \<and> (s \<noteq> playbackSpeed v \<longrightarrow>
                 playingIndexRef v < int (length td) - 1))"
proof -
  let ?u = "setPlaybackSpeed s v"
  have u: "indices_valid td ?u" by (rule handlers_valid(4) [OF assms(1)])
  have "syncPlayingIndex v ?u = ?u"
    by (rule syncPlayingIndex_same) (simp add: setPlaybackSpeed_def)
  with flush_valid [OF u, of v] show ?thesis
    by (auto simp: step_def setPlaybackSpeed_def playbackDepsChanged_def)
qed

end
